theory Spec2Isabelle
  imports Main "HOL-Library.Sublist"
begin

section \<open>The Quake3 protocol client of opengsq\<close>

text \<open>
  A shallow embedding of \<^verbatim>\<open>opengsq/protocols/quake3.py\<close>: the class
  \<^verbatim>\<open>Quake3\<close> with its constructor, \<^verbatim>\<open>get_info\<close>,
  \<^verbatim>\<open>get_status\<close> and the static method \<^verbatim>\<open>strip_colors\<close>.
  The UDP round trip is outside the model: the two queries are functions of the bytes that
  \<^verbatim>\<open>_connect_and_send\<close> returned.
\<close>

subsection \<open>Python values\<close>

text \<open>
  A Python \<^verbatim>\<open>str\<close> is a sequence of code points, and the regular expression
  of \<^verbatim>\<open>strip_colors\<close> works on code points, so a \<^verbatim>\<open>str\<close> is a list
  of naturals (one per code point; text beyond ASCII is one number per character, as in
  Python). A \<^verbatim>\<open>bytes\<close> value is a list of 8-bit characters, which is what an
  Isabelle \<open>string\<close> is. A \<^verbatim>\<open>dict\<close> with \<^verbatim>\<open>str\<close> keys is a map.
\<close>

type_synonym pystr = "nat list"

type_synonym bytes = "char list"

type_synonym dict = "pystr \<rightharpoonup> pystr"

text \<open>The \<^verbatim>\<open>str\<close> literal with the given ASCII characters.\<close>

definition str :: "string \<Rightarrow> pystr" where
  "str s = map of_char s"

definition CARET :: nat where
  "CARET = of_char (CHR ''^'')"

definition LETTER_X :: nat where
  "LETTER_X = of_char (CHR ''X'')"

definition NEWLINE :: nat where
  "NEWLINE = of_char (CHR 0x0A)"

definition BACKSLASH :: char where
  "BACKSLASH = CHR 0x5C"

subsection \<open>The part of Python's \<^verbatim>\<open>re\<close> module that the pattern uses\<close>

text \<open>
  The pattern \<^verbatim>\<open>\^(X.{6}|.)\<close> is built from a literal character, the dot (any
  character except a newline, since no flag is given), concatenation, alternation and the
  counted repetition \<^verbatim>\<open>{n}\<close>. \<open>rmatch r s\<close> lists, in the order in which a
  backtracking matcher tries them, what is left of \<open>s\<close> after each way of matching \<open>r\<close>
  at the start of \<open>s\<close>: the first alternative before the second. The match that
  \<^verbatim>\<open>re\<close> reports at a position is the head of that list.
\<close>

datatype regex = Lit nat | Dot | Seq regex regex | Alt regex regex | Rep nat regex

primrec iterate :: "nat \<Rightarrow> (pystr \<Rightarrow> pystr list) \<Rightarrow> pystr \<Rightarrow> pystr list" where
  "iterate 0 m s = [s]"
| "iterate (Suc n) m s = concat (map (iterate n m) (m s))"

fun rmatch :: "regex \<Rightarrow> pystr \<Rightarrow> pystr list" where
  "rmatch (Lit c) s = (case s of [] \<Rightarrow> [] | x # xs \<Rightarrow> if x = c then [xs] else [])"
| "rmatch Dot s = (case s of [] \<Rightarrow> [] | x # xs \<Rightarrow> if x \<noteq> NEWLINE then [xs] else [])"
| "rmatch (Seq r1 r2) s = concat (map (rmatch r2) (rmatch r1 s))"
| "rmatch (Alt r1 r2) s = rmatch r1 s @ rmatch r2 s"
| "rmatch (Rep n r) s = iterate n (rmatch r) s"

text \<open>
  \<^verbatim>\<open>pattern.sub(repl, text)\<close>: scan from the left; where the pattern matches, put
  \<open>repl\<close> and go on after the match; where it does not, keep the character and go on
  with the next one. A match that consumes nothing is replaced and the scan moves one
  character on (the colour pattern starts with a literal, so its matches are never empty).
\<close>

function re_sub :: "regex \<Rightarrow> pystr \<Rightarrow> pystr \<Rightarrow> pystr" where
  "re_sub r repl s =
     (case rmatch r s of
        [] \<Rightarrow> (case s of [] \<Rightarrow> [] | c # cs \<Rightarrow> c # re_sub r repl cs)
      | rest # _ \<Rightarrow>
          (if length rest < length s then repl @ re_sub r repl rest
           else repl @ (case s of [] \<Rightarrow> [] | c # cs \<Rightarrow> c # re_sub r repl cs)))"
  by pat_completeness auto
termination
  by (relation "measure (\<lambda>(r, repl, s). length s)") auto

declare re_sub.simps [simp del]

subsection \<open>\<^verbatim>\<open>Quake3.strip_colors\<close>\<close>

text \<open>
  \<^verbatim>\<open>return re.compile("\\^(X.{6}|.)").sub("", text)\<close>
\<close>

definition color_pattern :: regex where
  "color_pattern = Seq (Lit CARET) (Alt (Seq (Lit LETTER_X) (Rep 6 Dot)) Dot)"

definition strip_colors :: "pystr \<Rightarrow> pystr" where
  "strip_colors text = re_sub color_pattern [] text"

subsection \<open>Collaborators that are not part of \<^verbatim>\<open>quake3.py\<close>\<close>

text \<open>
  \<^verbatim>\<open>InvalidPacketException\<close> carries its message. \<open>TruncatedPacketError\<close> is the
  failure that the specification gives the binary cursor.
\<close>

datatype error = InvalidPacketException pystr | TruncatedPacketError

text \<open>
  Modelled from the spec: \<^verbatim>\<open>opengsq.binary_reader.BinaryReader\<close> is missing. The
  specification's cursor is a buffer with an offset; \<open>read_string\<close> is its
  \<^verbatim>\<open>read_delimited\<close>: it consumes the bytes from the offset up to, not including,
  the next occurrence of the delimiter, moves the offset past the delimiter, returns the
  span decoded as text, and fails when the delimiter does not occur before the end of the
  buffer. \<open>remaining\<close> returns the unread bytes without moving. The delimiters of the
  protocol are single bytes. The codec is not named by the specification: \<open>decode_text\<close>
  gives each byte its own code point, which is what any ASCII-compatible codec does on
  ASCII bytes.
\<close>

record BinaryReader =
  buffer :: bytes
  offset :: nat

definition BinaryReader_new :: "bytes \<Rightarrow> BinaryReader" where
  "BinaryReader_new data = \<lparr>buffer = data, offset = 0\<rparr>"

definition decode_text :: "bytes \<Rightarrow> pystr" where
  "decode_text bs = map of_char bs"

definition remaining :: "BinaryReader \<Rightarrow> bytes" where
  "remaining br = drop (offset br) (buffer br)"

fun take_until :: "char \<Rightarrow> bytes \<Rightarrow> bytes option" where
  "take_until d [] = None"
| "take_until d (b # bs) =
     (if b = d then Some [] else map_option (Cons b) (take_until d bs))"

definition read_string :: "char \<Rightarrow> BinaryReader \<Rightarrow> error + (pystr \<times> BinaryReader)" where
  "read_string delimiter br =
     (case take_until delimiter (remaining br) of
        None \<Rightarrow> Inl TruncatedPacketError
      | Some span \<Rightarrow>
          Inr (decode_text span, br\<lparr>offset := offset br + length span + 1\<rparr>))"

text \<open>
  The instance: the attributes that \<^verbatim>\<open>quake3.py\<close> reads or sets
  (\<^verbatim>\<open>_delimiter1\<close>, \<^verbatim>\<open>_request_header\<close>, \<^verbatim>\<open>_response_header\<close>),
  and the rest of the per-protocol descriptor that the specification names: the record
  delimiter, the player-field delimiter and the player schema. Host, port and timeout play
  no part in decoding.
\<close>

record Quake3 =
  delimiter1 :: char
  delimiter2 :: char
  player_delimiter :: char
  player_schema :: "pystr list"
  request_header :: bytes
  response_header :: pystr

text \<open>
  Modelled from the spec: \<^verbatim>\<open>Quake2._parse_info\<close> and
  \<^verbatim>\<open>Quake2._parse_players\<close> are missing (the specification's
  \<^verbatim>\<open>decode_info\<close> and the player part of \<^verbatim>\<open>decode_status\<close>). The info
  block is split on the field delimiter into tokens, the tokens are taken in pairs (key,
  value), an odd last token is dropped, a later pair overwrites an earlier one with the
  same key, and the values stay strings. In a status response the info block is followed
  by the player records, one per line, so the info block is what comes before the first
  record delimiter (all of the payload when there is none, as in an info response). Each
  following line is one player: its fields, split on the player-field delimiter, are named
  by position from the schema, and a field that the line does not have is absent.
\<close>

fun bytes_split :: "char \<Rightarrow> bytes \<Rightarrow> bytes list" where
  "bytes_split d [] = [[]]"
| "bytes_split d (b # bs) =
     (if b = d then [] # bytes_split d bs
      else (case bytes_split d bs of [] \<Rightarrow> [[b]] | t # ts \<Rightarrow> (b # t) # ts))"

fun pairs :: "'a list \<Rightarrow> ('a \<times> 'a) list" where
  "pairs (k # v # rest) = (k, v) # pairs rest"
| "pairs _ = []"

definition parse_info :: "Quake3 \<Rightarrow> BinaryReader \<Rightarrow> dict \<times> BinaryReader" where
  "parse_info self br =
     (let payload = remaining br;
          block = takeWhile (\<lambda>b. b \<noteq> delimiter2 self) payload;
          tokens = map decode_text (bytes_split (delimiter1 self) block)
      in (fold (\<lambda>(k, v) info. info(k \<mapsto> v)) (pairs tokens) Map.empty,
          br\<lparr>offset := offset br + min (length payload) (length block + 1)\<rparr>))"

definition player_lines :: "char \<Rightarrow> bytes \<Rightarrow> bytes list" where
  "player_lines d payload =
     (let ls = bytes_split d payload in if last ls = [] then butlast ls else ls)"

definition parse_players :: "Quake3 \<Rightarrow> BinaryReader \<Rightarrow> dict list" where
  "parse_players self br =
     map (\<lambda>line. map_of (zip (player_schema self)
                       (map decode_text (bytes_split (player_delimiter self) line))))
       (player_lines (delimiter2 self) (remaining br))"

text \<open>
  The message of a header mismatch, the f-string of \<^verbatim>\<open>get_info\<close>:
  \<^verbatim>\<open>f"Packet header mismatch. Received: {header}. Expected: {response_header}."\<close>
\<close>

definition mismatch_message :: "pystr \<Rightarrow> pystr \<Rightarrow> pystr" where
  "mismatch_message header expected =
     str ''Packet header mismatch. Received: '' @ header @ str ''. Expected: '' @
     expected @ str ''.''"

text \<open>
  Modelled from the spec: \<^verbatim>\<open>Quake2._get_response_binary_reader\<close> is missing (the
  specification's \<^verbatim>\<open>validate_header\<close> on the reply): it reads the header token up
  to the field delimiter and fails with the invalid-packet error, naming the received and
  the expected header, unless the token is the instance's response header.
\<close>

definition get_response_binary_reader :: "Quake3 \<Rightarrow> bytes \<Rightarrow> error + BinaryReader" where
  "get_response_binary_reader self response_data =
     (case read_string (delimiter1 self) (BinaryReader_new response_data) of
        Inl e \<Rightarrow> Inl e
      | Inr (header, br) \<Rightarrow>
          if header \<noteq> response_header self
          then Inl (InvalidPacketException (mismatch_message header (response_header self)))
          else Inr br)"

subsection \<open>\<^verbatim>\<open>Quake3.__init__\<close>, \<^verbatim>\<open>get_info\<close> and \<^verbatim>\<open>get_status\<close>\<close>

text \<open>
  The constructor: after the constructor of the base class (whose result is the argument)
  it sets the request header to \<^verbatim>\<open>b"getstatus"\<close> and the response header to
  \<^verbatim>\<open>"statusResponse\n"\<close>.
\<close>

definition Quake3_init :: "Quake3 \<Rightarrow> Quake3" where
  "Quake3_init base =
     base\<lparr>request_header := ''getstatus'',
          response_header := str ''statusResponse'' @ [NEWLINE]\<rparr>"

text \<open>The local \<^verbatim>\<open>response_header = "infoResponse\n"\<close> of \<^verbatim>\<open>get_info\<close>.\<close>

definition info_response_header :: pystr where
  "info_response_header = str ''infoResponse'' @ [NEWLINE]"

definition get_info :: "Quake3 \<Rightarrow> bool \<Rightarrow> bytes \<Rightarrow> error + dict" where
  "get_info self strip_color response_data =
     (case read_string (delimiter1 self) (BinaryReader_new response_data) of
        Inl e \<Rightarrow> Inl e
      | Inr (header, br) \<Rightarrow>
          if header \<noteq> info_response_header
          then Inl (InvalidPacketException (mismatch_message header info_response_header))
          else
            (let info = fst (parse_info self br)
             in if \<not> strip_color then Inr info
                else (case info (str ''hostname'') of
                        None \<Rightarrow> Inr info
                      | Some v \<Rightarrow> Inr (info(str ''hostname'' \<mapsto> strip_colors v)))))"

text \<open>The dictionary \<^verbatim>\<open>{"info": ..., "players": ...}\<close> that \<^verbatim>\<open>get_status\<close> returns.\<close>

record status =
  info :: dict
  players :: "dict list"

definition get_status :: "Quake3 \<Rightarrow> bool \<Rightarrow> bytes \<Rightarrow> error + status" where
  "get_status self strip_color response_data =
     (case get_response_binary_reader self response_data of
        Inl e \<Rightarrow> Inl e
      | Inr br \<Rightarrow>
          (let (info0, br1) = parse_info self br;
               status = \<lparr>info = info0, players = parse_players self br1\<rparr>
           in if \<not> strip_color then Inr status
              else
                (let status1 =
                       (case info status (str ''sv_hostname'') of
                          None \<Rightarrow> status
                        | Some v \<Rightarrow>
                            status\<lparr>info := (info status)(str ''sv_hostname'' \<mapsto> strip_colors v)\<rparr>)
                 in Inr (status1\<lparr>players :=
                      map (\<lambda>player. case player (str ''name'') of
                                       None \<Rightarrow> player
                                     | Some v \<Rightarrow> player(str ''name'' \<mapsto> strip_colors v))
                        (players status1)\<rparr>))))"

subsection \<open>The colour pass in the words of the specification\<close>

text \<open>
  What follows a marker: the extended colour code, an \<open>X\<close> and six more characters
  that the dot accepts, or one control character, any character that the dot accepts.
\<close>

definition extended_code :: "pystr \<Rightarrow> bool" where
  "extended_code cs =
     (case cs of
        [] \<Rightarrow> False
      | d # ds \<Rightarrow> d = LETTER_X \<and> 6 \<le> length ds \<and> NEWLINE \<notin> set (take 6 ds))"

definition control_char :: "pystr \<Rightarrow> bool" where
  "control_char cs = (case cs of [] \<Rightarrow> False | d # ds \<Rightarrow> d \<noteq> NEWLINE)"

text \<open>
  One pass from the left: a marker with its extended code (eight characters) is dropped,
  else a marker with its control character (two characters) is dropped, else the
  character is kept.
\<close>

function strip_pass :: "pystr \<Rightarrow> pystr" where
  "strip_pass [] = []"
| "strip_pass (c # cs) =
     (if c = CARET \<and> extended_code cs then strip_pass (drop 7 cs)
      else if c = CARET \<and> control_char cs then strip_pass (tl cs)
      else c # strip_pass cs)"
  by pat_completeness auto
termination
  by (relation "measure length") (auto simp: control_char_def split: list.splits)

text \<open>
  The suffixes of the text at which the pass stands, in order: the whole text, then what
  is left after each step. A character that a marker before it has consumed starts none
  of them.
\<close>

function pass_suffixes :: "pystr \<Rightarrow> pystr list" where
  "pass_suffixes [] = [[]]"
| "pass_suffixes (c # cs) =
     (c # cs) #
     (if c = CARET \<and> extended_code cs then pass_suffixes (drop 7 cs)
      else if c = CARET \<and> control_char cs then pass_suffixes (tl cs)
      else pass_suffixes cs)"
  by pat_completeness auto
termination
  by (relation "measure length") (auto simp: control_char_def split: list.splits)

text \<open>
  Two readings of "the text contains a marker": a caret followed by a character that the
  dot accepts (what the pattern matches), and a caret followed by any character at all.
\<close>

fun has_marker :: "pystr \<Rightarrow> bool" where
  "has_marker (c # d # cs) = ((c = CARET \<and> d \<noteq> NEWLINE) \<or> has_marker (d # cs))"
| "has_marker _ = False"

fun caret_followed :: "pystr \<Rightarrow> bool" where
  "caret_followed (c # d # cs) = (c = CARET \<or> caret_followed (d # cs))"
| "caret_followed _ = False"

text \<open>
  Sanitising one field of a dictionary: the value under the key, if there is one, is
  replaced by its stripped form, and nothing else changes.
\<close>

definition strip_field :: "pystr \<Rightarrow> dict \<Rightarrow> dict" where
  "strip_field key d = (case d key of None \<Rightarrow> d | Some v \<Rightarrow> d(key \<mapsto> strip_colors v))"

subsection \<open>Scenarios of the specification\<close>

text \<open>
  The instance of the scenarios: the backslash separates fields, the newline separates
  records, a space separates the fields of a player, named score, ping and name.
\<close>

definition scenario_base :: Quake3 where
  "scenario_base =
     \<lparr>delimiter1 = BACKSLASH, delimiter2 = CHR 0x0A, player_delimiter = CHR '' '',
       player_schema = [str ''score'', str ''ping'', str ''name''],
       request_header = [], response_header = []\<rparr>"

definition scenario_self :: Quake3 where
  "scenario_self = Quake3_init scenario_base"

text \<open>\<^verbatim>\<open>b"infoResponse\n\\hostname\\^1Red^7Server\\gametype\\ffa"\<close>\<close>

definition scenario_response :: bytes where
  "scenario_response =
     ''infoResponse'' @ [CHR 0x0A, BACKSLASH] @ ''hostname'' @ [BACKSLASH] @
     ''^1Red^7Server'' @ [BACKSLASH] @ ''gametype'' @ [BACKSLASH] @ ''ffa''"

text \<open>The same payload behind the header \<^verbatim>\<open>"wrongResponse\n"\<close>.\<close>

definition wrong_response :: bytes where
  "wrong_response =
     ''wrongResponse'' @ [CHR 0x0A, BACKSLASH] @ ''hostname'' @ [BACKSLASH] @
     ''^1Red^7Server'' @ [BACKSLASH] @ ''gametype'' @ [BACKSLASH] @ ''ffa''"

text \<open>
  A status response: the info block with a coloured server name, then two players, the
  second with a coloured name.
\<close>

definition status_response :: bytes where
  "status_response =
     ''statusResponse'' @ [CHR 0x0A, BACKSLASH] @ ''sv_hostname'' @ [BACKSLASH] @
     ''^1Red^7Server'' @ [BACKSLASH] @ ''mapname'' @ [BACKSLASH] @ ''q3dm17'' @ [CHR 0x0A] @
     ''5 40 anna'' @ [CHR 0x0A] @ ''7 35 ^2bo^b'' @ [CHR 0x0A]"

section \<open>Properties\<close>

subsection \<open>The colour pattern, step by step\<close>

lemma CARET_neq [simp]:
  "CARET \<noteq> NEWLINE" "NEWLINE \<noteq> CARET" "CARET \<noteq> LETTER_X" "LETTER_X \<noteq> CARET"
  "LETTER_X \<noteq> NEWLINE" "NEWLINE \<noteq> LETTER_X"
  by (simp_all add: CARET_def NEWLINE_def LETTER_X_def)

lemma rmatch_Dot_Nil: "rmatch Dot [] = []"
  by simp

lemma rmatch_Dot_Cons: "rmatch Dot (x # xs) = (if x \<noteq> NEWLINE then [xs] else [])"
  by simp

lemma iterate_Dot:
  "iterate n (rmatch Dot) s =
     (if n \<le> length s \<and> NEWLINE \<notin> set (take n s) then [drop n s] else [])"
proof (induction n arbitrary: s)
  case 0
  show ?case by simp
next
  case (Suc n)
  show ?case
  proof (cases s)
    case Nil
    then show ?thesis by (simp del: rmatch.simps add: rmatch_Dot_Nil)
  next
    case (Cons x xs)
    show ?thesis
    proof (cases "x = NEWLINE")
      case True
      with Cons show ?thesis by (simp del: rmatch.simps add: rmatch_Dot_Cons)
    next
      case False
      with Cons show ?thesis
        by (simp del: rmatch.simps add: rmatch_Dot_Cons Suc.IH)
    qed
  qed
qed

lemma rmatch_Seq_Lit_Cons: "rmatch (Seq (Lit a) r) (c # cs) = (if c = a then rmatch r cs else [])"
  by simp

lemma rmatch_extended:
  "rmatch (Seq (Lit LETTER_X) (Rep 6 Dot)) cs = (if extended_code cs then [drop 7 cs] else [])"
proof (cases cs)
  case Nil
  then show ?thesis by (simp add: extended_code_def)
next
  case (Cons d ds)
  show ?thesis
  proof (cases "d = LETTER_X")
    case True
    with Cons have "rmatch (Seq (Lit LETTER_X) (Rep 6 Dot)) cs = iterate 6 (rmatch Dot) ds"
      by (simp only: rmatch_Seq_Lit_Cons rmatch.simps(5) simp_thms if_True)
    with Cons True show ?thesis
      by (simp only: iterate_Dot) (simp add: extended_code_def)
  next
    case False
    with Cons show ?thesis by (simp add: extended_code_def)
  qed
qed

lemma rmatch_single: "rmatch Dot cs = (if control_char cs then [tl cs] else [])"
  by (cases cs) (simp_all add: control_char_def)

lemma rmatch_color_Nil: "rmatch color_pattern [] = []"
  by (simp add: color_pattern_def)

lemma rmatch_color_caret:
  "rmatch color_pattern (CARET # cs) =
     (if extended_code cs then [drop 7 cs] else []) @ rmatch Dot cs"
proof -
  have "rmatch color_pattern (CARET # cs) =
      rmatch (Seq (Lit LETTER_X) (Rep 6 Dot)) cs @ rmatch Dot cs"
    by (simp only: color_pattern_def rmatch_Seq_Lit_Cons rmatch.simps(4) simp_thms if_True)
  then show ?thesis by (simp only: rmatch_extended)
qed

lemma rmatch_color_other: "c \<noteq> CARET \<Longrightarrow> rmatch color_pattern (c # cs) = []"
  by (simp only: color_pattern_def rmatch_Seq_Lit_Cons simp_thms if_False)

lemma rmatch_color_Cons:
  "rmatch color_pattern (c # cs) =
     (if c = CARET
      then (if extended_code cs then [drop 7 cs] else []) @
           (if control_char cs then [tl cs] else [])
      else [])"
  by (cases "c = CARET") (simp_all only: rmatch_color_caret rmatch_color_other rmatch_single simp_thms if_True if_False)

lemma strip_colors_Nil: "strip_colors [] = []"
  by (simp add: strip_colors_def re_sub.simps [of _ _ "[]"] rmatch_color_Nil)

lemma strip_colors_Cons:
  "strip_colors (c # cs) =
     (if c = CARET \<and> extended_code cs then strip_colors (drop 7 cs)
      else if c = CARET \<and> control_char cs then strip_colors (tl cs)
      else c # strip_colors cs)"
proof -
  have "strip_colors (c # cs) =
      (case rmatch color_pattern (c # cs) of
         [] \<Rightarrow> c # strip_colors cs
       | rest # _ \<Rightarrow>
           (if length rest < length (c # cs) then strip_colors rest
            else c # strip_colors cs))"
    unfolding strip_colors_def by (subst re_sub.simps) (simp split: list.splits)
  moreover have "length cs - 7 < Suc (length cs)" "length cs - Suc 0 < Suc (length cs)"
    by arith+
  ultimately show ?thesis
    by (simp add: rmatch_color_Cons)
qed

lemma strip_colors_eq_pass: "strip_colors s = strip_pass s"
  by (induction s rule: strip_pass.induct) (simp_all add: strip_colors_Nil strip_colors_Cons)

lemma no_marker_pass: "\<not> has_marker s \<Longrightarrow> strip_pass s = s"
  by (induction s rule: has_marker.induct)
     (auto simp: extended_code_def control_char_def)

lemma has_marker_Cons:
  "has_marker (c # ys) = ((c = CARET \<and> control_char ys) \<or> has_marker ys)"
  by (cases ys) (simp_all add: control_char_def)

lemma pass_no_marker: "\<not> has_marker (strip_pass s)"
proof (induction s rule: strip_pass.induct)
  case 1
  show ?case by simp
next
  case (2 c cs)
  show ?case
  proof (cases "c = CARET \<and> (extended_code cs \<or> control_char cs)")
    case True
    with 2 show ?thesis by auto
  next
    case False
    then have keep: "strip_pass (c # cs) = c # strip_pass cs" by auto
    from False 2 have ih: "\<not> has_marker (strip_pass cs)" by auto
    have "\<not> (c = CARET \<and> control_char (strip_pass cs))"
    proof (cases "c = CARET")
      case True
      with False have "\<not> control_char cs" by simp
      then show ?thesis
        by (cases cs) (auto simp: control_char_def)
    next
      case False
      then show ?thesis by simp
    qed
    with keep ih show ?thesis by (simp add: has_marker_Cons)
  qed
qed

lemma has_marker_caret_followed: "has_marker s \<Longrightarrow> caret_followed s"
  by (induction s rule: has_marker.induct) auto

subsection \<open>Where the pass stands\<close>

lemma extended_imp_control: "extended_code cs \<Longrightarrow> control_char cs"
  by (cases cs) (simp_all add: extended_code_def control_char_def)

lemma extended_code_append:
  "extended_code cs \<Longrightarrow> extended_code (take 7 cs @ r) \<and> drop 7 (take 7 cs @ r) = r"
proof (cases cs)
  case Nil
  assume "extended_code cs"
  with Nil show ?thesis by (simp add: extended_code_def)
next
  case (Cons d ds)
  assume "extended_code cs"
  with Cons have *: "d = LETTER_X" "6 \<le> length ds" "NEWLINE \<notin> set (take 6 ds)"
    by (simp_all add: extended_code_def)
  have t: "take 7 cs = d # take 6 ds" using Cons by simp
  from * show ?thesis unfolding t by (simp add: extended_code_def)
qed

lemma not_extended_prefix: "\<not> extended_code (p @ u) \<Longrightarrow> \<not> extended_code p"
proof (cases p)
  case Nil
  then show ?thesis by (simp add: extended_code_def)
next
  case (Cons d ds)
  assume n: "\<not> extended_code (p @ u)"
  show ?thesis
  proof
    assume "extended_code p"
    with Cons have "d = LETTER_X" "6 \<le> length ds" "NEWLINE \<notin> set (take 6 ds)"
      by (simp_all add: extended_code_def)
    with Cons have "extended_code (p @ u)" by (simp add: extended_code_def)
    with n show False by simp
  qed
qed

lemma not_control_prefix: "\<not> control_char (p @ u) \<Longrightarrow> \<not> control_char p"
  by (cases p) (simp_all add: control_char_def)

lemma pass_suffixes_split:
  "u \<in> set (pass_suffixes s) \<Longrightarrow>
   \<exists>pre. s = pre @ u \<and> strip_pass s = strip_pass pre @ strip_pass u"
proof (induction s rule: pass_suffixes.induct)
  case 1
  then show ?case by simp
next
  case (2 c cs)
  show ?case
  proof (cases "u = c # cs")
    case True
    then have "c # cs = [] @ u \<and> strip_pass (c # cs) = strip_pass [] @ strip_pass u" by simp
    then show ?thesis by blast
  next
    case nothead: False
    show ?thesis
    proof (cases "c = CARET \<and> extended_code cs")
      case True
      with 2 nothead obtain pre where
        pre: "drop 7 cs = pre @ u" "strip_pass (drop 7 cs) = strip_pass pre @ strip_pass u"
        by auto
      let ?p = "c # take 7 cs @ pre"
      from True have ext: "extended_code (take 7 cs @ pre)" "drop 7 (take 7 cs @ pre) = pre"
        using extended_code_append [of cs pre] by simp_all
      have "take 7 cs @ drop 7 cs = cs" by (rule append_take_drop_id)
      with pre(1) have "c # cs = ?p @ u" by simp
      moreover have "strip_pass ?p = strip_pass pre" using True ext by simp
      moreover have "strip_pass (c # cs) = strip_pass (drop 7 cs)" using True by simp
      ultimately have "c # cs = ?p @ u \<and> strip_pass (c # cs) = strip_pass ?p @ strip_pass u"
        using pre(2) by simp
      then show ?thesis by blast
    next
      case notext: False
      show ?thesis
      proof (cases "c = CARET \<and> control_char cs")
        case True
        then obtain d ds where cs: "cs = d # ds" and d: "d \<noteq> NEWLINE"
          by (cases cs) (auto simp: control_char_def)
        from 2 nothead notext True cs obtain pre where
          pre: "ds = pre @ u" "strip_pass ds = strip_pass pre @ strip_pass u"
          by auto
        let ?p = "c # d # pre"
        from notext True cs pre(1) have "\<not> extended_code ((d # pre) @ u)" by simp
        then have ne: "\<not> extended_code (d # pre)" by (rule not_extended_prefix)
        have "strip_pass ?p = strip_pass pre"
          using True ne d by (simp add: control_char_def)
        moreover have "strip_pass (c # cs) = strip_pass ds"
          using True notext cs by simp
        ultimately have "c # cs = ?p @ u \<and> strip_pass (c # cs) = strip_pass ?p @ strip_pass u"
          using pre cs by simp
        then show ?thesis by blast
      next
        case keep: False
        with 2 nothead notext obtain pre where
          pre: "cs = pre @ u" "strip_pass cs = strip_pass pre @ strip_pass u"
          by auto
        let ?p = "c # pre"
        have k: "strip_pass (c # cs) = c # strip_pass cs" using keep notext by auto
        have "strip_pass ?p = c # strip_pass pre"
        proof (cases "c = CARET")
          case True
          with keep have "\<not> control_char (pre @ u)" using pre(1) by simp
          then have "\<not> control_char pre" by (rule not_control_prefix)
          moreover from this have "\<not> extended_code pre" using extended_imp_control by blast
          ultimately show ?thesis by simp
        next
          case False
          then show ?thesis by simp
        qed
        with k pre have "c # cs = ?p @ u \<and> strip_pass (c # cs) = strip_pass ?p @ strip_pass u"
          by simp
        then show ?thesis by blast
      qed
    qed
  qed
qed

lemma strip_pass_unmatched_caret:
  "rest = [] \<or> hd rest = NEWLINE \<Longrightarrow> strip_pass (CARET # rest) = CARET # strip_pass rest"
  by (cases rest) (auto simp: extended_code_def control_char_def)

lemmas text_consts = str_def CARET_def LETTER_X_def NEWLINE_def

lemmas pass_eval = text_consts extended_code_def control_char_def

subsection \<open>Claims about \<^verbatim>\<open>strip_colors\<close>\<close>

text \<open>
  C3: \<^verbatim>\<open>strip_colors\<close> is idempotent: stripping a stripped string changes
  nothing, for every input string.
\<close>

theorem strip_colors_idempotent: "strip_colors (strip_colors x) = strip_colors x"
  by (simp add: strip_colors_eq_pass no_marker_pass pass_no_marker)

theorem strip_colors_idempotent_witness:
  "strip_colors (str ''^1Red^7Server'') = str ''RedServer'' \<and>
   strip_colors (strip_colors (str ''^1Red^7Server'')) = str ''RedServer''"
proof -
  have "strip_colors (str ''^1Red^7Server'') = str ''RedServer''"
    by (simp add: strip_colors_eq_pass pass_eval)
  with strip_colors_idempotent [of "str ''^1Red^7Server''"] show ?thesis by simp
qed

text \<open>
  C4: \<^verbatim>\<open>strip_colors\<close> returns a string without markers unchanged. This holds
  for the reading of the claim (no caret is followed by a character) and for the wider
  class of strings in which no caret is followed by a character that the pattern accepts.
\<close>

theorem strip_colors_identity_without_marker:
  "(\<not> caret_followed text \<longrightarrow> strip_colors text = text) \<and>
   (\<not> has_marker text \<longrightarrow> strip_colors text = text)"
proof -
  have "\<not> caret_followed text \<Longrightarrow> \<not> has_marker text"
    using has_marker_caret_followed by blast
  then show ?thesis
    by (auto simp: strip_colors_eq_pass intro: no_marker_pass)
qed

theorem strip_colors_identity_without_marker_witness:
  "\<not> caret_followed (str ''Red Server^'') \<and> \<not> has_marker (str ''Red Server^'') \<and>
   strip_colors (str ''Red Server^'') = str ''Red Server^''"
proof -
  have "\<not> caret_followed (str ''Red Server^'')" "\<not> has_marker (str ''Red Server^'')"
    by (simp_all add: text_consts)
  with strip_colors_identity_without_marker [of "str ''Red Server^''"] show ?thesis by simp
qed

text \<open>
  C5: on every input string the substitution by the pattern is the one pass from the left
  that drops each marker together with its extended colour code (the \<open>X\<close> and six
  characters) or else with its single control character, and keeps every other character
  as it is. A character here is what the dot of the pattern accepts, any code point but
  the newline. The function is total: there is no input on which it fails.
\<close>

theorem strip_colors_single_pass: "strip_colors text = strip_pass text"
  by (rule strip_colors_eq_pass)

theorem strip_colors_single_pass_witness:
  "strip_colors (str ''^1Red^X12ab90^^Ser^'' @ NEWLINE # str ''ver^'') =
   str ''RedSer^'' @ NEWLINE # str ''ver^''"
proof -
  have "strip_pass (str ''^1Red^X12ab90^^Ser^'' @ NEWLINE # str ''ver^'') =
      str ''RedSer^'' @ NEWLINE # str ''ver^''"
    by (simp add: pass_eval)
  with strip_colors_single_pass [of "str ''^1Red^X12ab90^^Ser^'' @ NEWLINE # str ''ver^''"]
  show ?thesis by simp
qed

text \<open>
  C9, as stated, fails: in \<^verbatim>\<open>"^^"\<close> the last character is a caret and it is
  removed, as the control character of the caret before it; likewise the second caret of
  \<^verbatim>\<open>"^^\n"\<close>, which a newline follows.
\<close>

theorem trailing_caret_counterexample:
  "last (str ''^^'') = CARET \<and> strip_colors (str ''^^'') = [] \<and>
   strip_colors (str ''^^'' @ [NEWLINE]) = [NEWLINE]"
  by (simp add: strip_colors_eq_pass pass_eval)

text \<open>
  C9, amended: a caret at which the pass stands (one that no marker before it has
  consumed as its control character or inside its extended code) and that is the last
  character of the string, or is followed by a newline, is not removed: the output is
  the stripped text before it, the caret, and the stripped text after it.
\<close>

theorem strip_colors_keeps_unmatched_caret:
  assumes "CARET # rest \<in> set (pass_suffixes text)"
    and "rest = [] \<or> hd rest = NEWLINE"
  shows "\<exists>pre. text = pre @ CARET # rest \<and>
           strip_colors text = strip_colors pre @ CARET # strip_colors rest"
proof -
  from pass_suffixes_split [OF assms(1)] obtain pre where
    "text = pre @ CARET # rest" "strip_pass text = strip_pass pre @ strip_pass (CARET # rest)"
    by blast
  with strip_pass_unmatched_caret [OF assms(2)] show ?thesis
    by (auto simp: strip_colors_eq_pass)
qed

theorem strip_colors_keeps_unmatched_caret_witness:
  "[CARET] \<in> set (pass_suffixes (str ''^1Red^'')) \<and>
   (\<exists>pre. str ''^1Red^'' = pre @ [CARET] \<and>
      strip_colors (str ''^1Red^'') = strip_colors pre @ [CARET])"
proof -
  have m: "CARET # [] \<in> set (pass_suffixes (str ''^1Red^''))"
    by (simp add: pass_eval)
  have "[] = [] \<or> hd [] = NEWLINE" by simp
  from strip_colors_keeps_unmatched_caret [OF m this] m show ?thesis
    by (simp add: strip_colors_Nil)
qed

text \<open>
  C10: after a marker, the extended branch is taken exactly when an \<open>X\<close> and at least
  six further characters other than the newline follow, and then the marker and those
  seven characters go. Otherwise the matches are those of the single-character branch
  alone, which removes the marker and the one character after it. In particular
  \<^verbatim>\<open>strip_colors("^Xab") == "ab"\<close>, and \<^verbatim>\<open>"^^"\<close> is removed entirely.
\<close>

theorem strip_colors_branch_choice:
  "(extended_code cs \<longrightarrow> strip_colors (CARET # cs) = strip_colors (drop 7 cs)) \<and>
   (\<not> extended_code cs \<longrightarrow> rmatch color_pattern (CARET # cs) = rmatch Dot cs) \<and>
   (\<not> extended_code cs \<and> control_char cs \<longrightarrow>
      strip_colors (CARET # cs) = strip_colors (tl cs)) \<and>
   strip_colors (str ''^Xab'') = str ''ab'' \<and>
   strip_colors (str ''^^'') = []"
proof -
  have "strip_colors (str ''^Xab'') = str ''ab''" "strip_colors (str ''^^'') = []"
    by (simp_all add: strip_colors_eq_pass pass_eval)
  then show ?thesis
    by (simp add: strip_colors_Cons rmatch_color_caret)
qed

theorem strip_colors_branch_choice_witness:
  "extended_code (str ''X12ab90Z'') \<and> strip_colors (CARET # str ''X12ab90Z'') = str ''Z'' \<and>
   \<not> extended_code (str ''X12ab9'') \<and> control_char (str ''X12ab9'') \<and>
   strip_colors (CARET # str ''X12ab9'') = str ''12ab9''"
proof -
  have e: "extended_code (str ''X12ab90Z'')"
    and n: "\<not> extended_code (str ''X12ab9'')" and c: "control_char (str ''X12ab9'')"
    by (simp_all add: pass_eval)
  have "strip_colors (drop 7 (str ''X12ab90Z'')) = str ''Z''"
    "strip_colors (tl (str ''X12ab9'')) = str ''12ab9''"
    by (simp_all add: strip_colors_eq_pass pass_eval)
  with strip_colors_branch_choice [of "str ''X12ab90Z''"]
    strip_colors_branch_choice [of "str ''X12ab9''"] e n c
  show ?thesis by simp
qed

subsection \<open>Claims about \<^verbatim>\<open>get_info\<close> and \<^verbatim>\<open>get_status\<close>\<close>

lemmas reader_eval = BinaryReader_new_def remaining_def read_string_def decode_text_def
  BACKSLASH_def

lemma sublist_mismatch_message:
  "sublist header (mismatch_message header expected)"
  "sublist expected (mismatch_message header expected)"
proof -
  show "sublist header (mismatch_message header expected)"
    unfolding mismatch_message_def by (rule sublist_appendI)
  have "mismatch_message header expected =
      (str ''Packet header mismatch. Received: '' @ header @ str ''. Expected: '') @
      expected @ str ''.''"
    by (simp add: mismatch_message_def)
  then show "sublist expected (mismatch_message header expected)"
    by (simp only: sublist_appendI)
qed

text \<open>
  C1: when the header token that \<^verbatim>\<open>get_info\<close> reads from the response differs
  from \<^verbatim>\<open>"infoResponse\n"\<close>, the call raises
  \<^verbatim>\<open>InvalidPacketException\<close>, whatever the payload and whatever
  \<^verbatim>\<open>strip_color\<close> is, and the message contains the received token and the
  expected one.
\<close>

theorem get_info_header_mismatch:
  assumes "read_string (delimiter1 self) (BinaryReader_new response_data) = Inr (header, br)"
    and "header \<noteq> info_response_header"
  shows "get_info self strip_color response_data =
           Inl (InvalidPacketException (mismatch_message header info_response_header)) \<and>
         sublist header (mismatch_message header info_response_header) \<and>
         sublist info_response_header (mismatch_message header info_response_header)"
  using assms by (simp add: get_info_def sublist_mismatch_message)

lemma read_wrong_response:
  "read_string (delimiter1 scenario_self) (BinaryReader_new wrong_response) =
     Inr (str ''wrongResponse'' @ [NEWLINE], \<lparr>buffer = wrong_response, offset = 15\<rparr>)"
  by (simp add: scenario_self_def scenario_base_def Quake3_init_def wrong_response_def
      reader_eval text_consts)

theorem get_info_header_mismatch_witness:
  "get_info scenario_self True wrong_response =
     Inl (InvalidPacketException
       (str ''Packet header mismatch. Received: wrongResponse'' @ [NEWLINE] @
        str ''. Expected: infoResponse'' @ [NEWLINE] @ str ''.'')) \<and>
   sublist (str ''wrongResponse'' @ [NEWLINE])
     (mismatch_message (str ''wrongResponse'' @ [NEWLINE]) info_response_header)"
proof -
  have ne: "str ''wrongResponse'' @ [NEWLINE] \<noteq> info_response_header"
    by (simp add: info_response_header_def text_consts)
  from get_info_header_mismatch [OF read_wrong_response ne, of True] show ?thesis
    by (simp add: mismatch_message_def info_response_header_def str_def)
qed

lemma read_scenario_response:
  "read_string (delimiter1 scenario_self) (BinaryReader_new scenario_response) =
     Inr (info_response_header, \<lparr>buffer = scenario_response, offset = 14\<rparr>)"
  by (simp add: scenario_self_def scenario_base_def Quake3_init_def scenario_response_def
      reader_eval info_response_header_def text_consts)

lemma parse_scenario_response:
  "fst (parse_info scenario_self \<lparr>buffer = scenario_response, offset = 14\<rparr>) =
     [str ''hostname'' \<mapsto> str ''^1Red^7Server'', str ''gametype'' \<mapsto> str ''ffa'']"
  by (simp add: parse_info_def scenario_self_def scenario_base_def Quake3_init_def
      scenario_response_def reader_eval text_consts Let_def)

lemma strip_hostname: "strip_colors (str ''^1Red^7Server'') = str ''RedServer''"
  by (simp add: strip_colors_eq_pass pass_eval)

lemma get_info_scenario_stripped:
  "get_info scenario_self True scenario_response =
     Inr ([str ''hostname'' \<mapsto> str ''^1Red^7Server'', str ''gametype'' \<mapsto> str ''ffa'']
          (str ''hostname'' \<mapsto> str ''RedServer''))"
proof -
  have "str ''hostname'' \<noteq> str ''gametype''" by (simp add: str_def)
  then show ?thesis
    by (simp add: get_info_def read_scenario_response parse_scenario_response strip_hostname)
qed

text \<open>
  C2, as stated, fails: the pattern removes the two colour codes \<^verbatim>\<open>^1\<close> and
  \<^verbatim>\<open>^7\<close> and nothing else, so the text \<^verbatim>\<open>Red\<close> between them stays and
  the host name is not \<^verbatim>\<open>"Server"\<close>.
\<close>

theorem get_info_scenario1_counterexample:
  "get_info scenario_self True scenario_response \<noteq>
     Inr [str ''hostname'' \<mapsto> str ''Server'', str ''gametype'' \<mapsto> str ''ffa'']"
proof
  assume "get_info scenario_self True scenario_response =
     Inr [str ''hostname'' \<mapsto> str ''Server'', str ''gametype'' \<mapsto> str ''ffa'']"
  then have "([str ''hostname'' \<mapsto> str ''^1Red^7Server'', str ''gametype'' \<mapsto> str ''ffa'']
          (str ''hostname'' \<mapsto> str ''RedServer'')) (str ''hostname'') =
     [str ''hostname'' \<mapsto> str ''Server'', str ''gametype'' \<mapsto> str ''ffa''] (str ''hostname'')"
    by (simp only: get_info_scenario_stripped sum.inject)
  then show False by (simp add: str_def)
qed

text \<open>
  C2, amended: for the response of scenario 1, with the backslash as field delimiter,
  \<^verbatim>\<open>get_info()\<close> with \<^verbatim>\<open>strip_color\<close> true returns
  \<^verbatim>\<open>{"hostname": "RedServer", "gametype": "ffa"}\<close>.
\<close>

theorem get_info_scenario1:
  "get_info scenario_self True scenario_response =
     Inr [str ''hostname'' \<mapsto> str ''RedServer'', str ''gametype'' \<mapsto> str ''ffa'']"
proof -
  have "[str ''hostname'' \<mapsto> str ''^1Red^7Server'', str ''gametype'' \<mapsto> str ''ffa'']
          (str ''hostname'' \<mapsto> str ''RedServer'') =
        [str ''hostname'' \<mapsto> str ''RedServer'', str ''gametype'' \<mapsto> str ''ffa'']"
    by (rule ext) (simp add: str_def)
  with get_info_scenario_stripped show ?thesis by simp
qed

text \<open>
  C6: for the same response, \<^verbatim>\<open>get_info(strip_color=false)\<close> returns the info
  map with the host name as it came, \<^verbatim>\<open>"^1Red^7Server"\<close>: the result is the
  parsed map itself, with no field stripped.
\<close>

theorem get_info_scenario2:
  "get_info scenario_self False scenario_response =
     Inr [str ''hostname'' \<mapsto> str ''^1Red^7Server'', str ''gametype'' \<mapsto> str ''ffa''] \<and>
   read_string (delimiter1 scenario_self) (BinaryReader_new scenario_response) =
     Inr (info_response_header, \<lparr>buffer = scenario_response, offset = 14\<rparr>) \<and>
   get_info scenario_self False scenario_response =
     Inr (fst (parse_info scenario_self \<lparr>buffer = scenario_response, offset = 14\<rparr>))"
  by (simp add: get_info_def read_scenario_response parse_scenario_response)

lemma get_info_accepts:
  assumes "get_info self strip_color data = Inr m"
  shows "\<exists>br. read_string (delimiter1 self) (BinaryReader_new data) = Inr (info_response_header, br)"
proof (cases "read_string (delimiter1 self) (BinaryReader_new data)")
  case (Inl e)
  with assms show ?thesis by (simp add: get_info_def)
next
  case (Inr p)
  obtain header br where p: "p = (header, br)" by (cases p)
  show ?thesis
  proof (cases "header = info_response_header")
    case True
    with Inr p show ?thesis by simp
  next
    case False
    with assms Inr p show ?thesis by (simp add: get_info_def)
  qed
qed

lemma get_info_accepted:
  assumes "read_string (delimiter1 self) (BinaryReader_new data) = Inr (info_response_header, br)"
  shows "get_info self False data = Inr (fst (parse_info self br))"
    and "get_info self True data =
      Inr (case fst (parse_info self br) (str ''hostname'') of
             None \<Rightarrow> fst (parse_info self br)
           | Some v \<Rightarrow> (fst (parse_info self br))(str ''hostname'' \<mapsto> strip_colors v))"
  using assms by (simp_all add: get_info_def Let_def split: option.split)

lemma get_status_accepts:
  assumes "get_status self strip_color data = Inr st"
  shows "\<exists>br. get_response_binary_reader self data = Inr br"
proof (cases "get_response_binary_reader self data")
  case (Inl e)
  with assms show ?thesis by (simp add: get_status_def)
next
  case (Inr br)
  then show ?thesis by simp
qed

lemma get_status_accepted:
  assumes "get_response_binary_reader self data = Inr br"
  shows "get_status self False data =
      Inr \<lparr>info = fst (parse_info self br),
           players = parse_players self (snd (parse_info self br))\<rparr>"
    and "get_status self True data =
      Inr \<lparr>info = (case fst (parse_info self br) (str ''sv_hostname'') of
                     None \<Rightarrow> fst (parse_info self br)
                   | Some v \<Rightarrow> (fst (parse_info self br))(str ''sv_hostname'' \<mapsto> strip_colors v)),
           players = map (\<lambda>player. case player (str ''name'') of
                             None \<Rightarrow> player
                           | Some v \<Rightarrow> player(str ''name'' \<mapsto> strip_colors v))
                       (parse_players self (snd (parse_info self br)))\<rparr>"
  using assms
  by (simp_all add: get_status_def Let_def split_beta split: option.split)

lemma strip_field_other: "k \<noteq> key \<Longrightarrow> strip_field key d k = d k"
  by (simp add: strip_field_def split: option.split)

lemma strip_field_absent: "d key = None \<Longrightarrow> strip_field key d = d"
  by (simp add: strip_field_def)

lemma frame_info:
  assumes a: "get_info self True data = Inr m"
  shows "(\<exists>br parsed.
         read_string (delimiter1 self) (BinaryReader_new data) = Inr (info_response_header, br) \<and>
         parsed = fst (parse_info self br) \<and>
         get_info self False data = Inr parsed \<and>
         (\<forall>k. k \<noteq> str ''hostname'' \<longrightarrow> m k = parsed k) \<and>
         (parsed (str ''hostname'') = None \<longrightarrow> m = parsed))"
proof -
  from get_info_accepts [OF a] obtain br where
    br: "read_string (delimiter1 self) (BinaryReader_new data) = Inr (info_response_header, br)"
    by blast
  let ?p = "fst (parse_info self br)"
  from a get_info_accepted(2) [OF br] have m: "m = strip_field (str ''hostname'') ?p"
    by (simp add: strip_field_def)
  have "\<forall>k. k \<noteq> str ''hostname'' \<longrightarrow> m k = ?p k"
    unfolding m by (simp add: strip_field_other)
  moreover have "?p (str ''hostname'') = None \<longrightarrow> m = ?p"
    unfolding m by (simp add: strip_field_absent)
  moreover note br get_info_accepted(1) [OF br]
  ultimately show ?thesis
    by (intro exI [of _ br] exI [of _ ?p] conjI) (rule refl | assumption)+
qed

lemma frame_status:
  assumes a: "get_status self True data = Inr st"
  shows "(\<exists>br parsed.
         get_response_binary_reader self data = Inr br \<and>
         parsed = \<lparr>info = fst (parse_info self br),
                    players = parse_players self (snd (parse_info self br))\<rparr> \<and>
         get_status self False data = Inr parsed \<and>
         (\<forall>k. k \<noteq> str ''sv_hostname'' \<longrightarrow> info st k = info parsed k) \<and>
         (info parsed (str ''sv_hostname'') = None \<longrightarrow> info st = info parsed) \<and>
         length (players st) = length (players parsed) \<and>
         (\<forall>i<length (players parsed).
            (\<forall>k. k \<noteq> str ''name'' \<longrightarrow> (players st ! i) k = (players parsed ! i) k) \<and>
            ((players parsed ! i) (str ''name'') = None \<longrightarrow>
               players st ! i = players parsed ! i)))"
proof -
  from get_status_accepts [OF a] obtain br where
    br: "get_response_binary_reader self data = Inr br"
    by blast
  define i where "i = fst (parse_info self br)"
  define ps where "ps = parse_players self (snd (parse_info self br))"
  let ?p = "\<lparr>info = fst (parse_info self br),
             players = parse_players self (snd (parse_info self br))\<rparr>"
  from a get_status_accepted(2) [OF br] have st:
    "st = \<lparr>info = strip_field (str ''sv_hostname'') i,
           players = map (strip_field (str ''name'')) ps\<rparr>"
    by (simp add: strip_field_def [abs_def] i_def ps_def)
  have p: "info ?p = i" "players ?p = ps" by (simp_all add: i_def ps_def)
  have i1: "\<forall>k. k \<noteq> str ''sv_hostname'' \<longrightarrow> info st k = info ?p k"
    unfolding p st by (simp add: strip_field_other)
  have i2: "info ?p (str ''sv_hostname'') = None \<longrightarrow> info st = info ?p"
    unfolding p st by (simp add: strip_field_absent)
  have l: "length (players st) = length (players ?p)"
    unfolding p st by simp
  have pl: "\<forall>i<length (players ?p).
            (\<forall>k. k \<noteq> str ''name'' \<longrightarrow> (players st ! i) k = (players ?p ! i) k) \<and>
            ((players ?p ! i) (str ''name'') = None \<longrightarrow> players st ! i = players ?p ! i)"
    unfolding p st by (simp add: strip_field_other strip_field_absent)
  note br get_status_accepted(1) [OF br] i1 i2 l pl
  then show ?thesis
    by (intro exI [of _ br] exI [of _ ?p] conjI) (rule refl | assumption)+
qed

lemma read_status_response:
  "get_response_binary_reader scenario_self status_response =
     Inr \<lparr>buffer = status_response, offset = 16\<rparr>"
  by (simp add: get_response_binary_reader_def scenario_self_def scenario_base_def Quake3_init_def
      status_response_def reader_eval text_consts)

lemma parse_status_info:
  "parse_info scenario_self \<lparr>buffer = status_response, offset = 16\<rparr> =
     ([str ''sv_hostname'' \<mapsto> str ''^1Red^7Server'', str ''mapname'' \<mapsto> str ''q3dm17''],
      \<lparr>buffer = status_response, offset = 57\<rparr>)"
  by (simp add: parse_info_def scenario_self_def scenario_base_def Quake3_init_def status_response_def
      reader_eval text_consts Let_def)

lemma parse_status_players:
  "parse_players scenario_self \<lparr>buffer = status_response, offset = 57\<rparr> =
     [map_of [(str ''score'', str ''5''), (str ''ping'', str ''40''), (str ''name'', str ''anna'')],
      map_of [(str ''score'', str ''7''), (str ''ping'', str ''35''),
              (str ''name'', str ''^2bo^b'')]]"
  by (simp add: parse_players_def player_lines_def scenario_self_def scenario_base_def Quake3_init_def
      status_response_def reader_eval text_consts Let_def)

text \<open>
  C7: sanitization touches the known display fields only. Whenever
  \<^verbatim>\<open>get_info\<close> with \<^verbatim>\<open>strip_color\<close> true returns a map, the call with
  \<^verbatim>\<open>strip_color\<close> false returns the parsed map, and the two agree on every key
  but \<^verbatim>\<open>"hostname"\<close>; without that key they are equal. Whenever
  \<^verbatim>\<open>get_status\<close> with \<^verbatim>\<open>strip_color\<close> true returns a status, its info
  agrees with the parsed info on every key but \<^verbatim>\<open>"sv_hostname"\<close> (and is equal
  to it without that key), it has as many players as were parsed, and each player agrees
  with the parsed one on every key but \<^verbatim>\<open>"name"\<close> (and is equal to it without
  that key).
\<close>

theorem sanitization_frame:
  "(get_info self True data = Inr m \<longrightarrow>
      (\<exists>br parsed.
         read_string (delimiter1 self) (BinaryReader_new data) = Inr (info_response_header, br) \<and>
         parsed = fst (parse_info self br) \<and>
         get_info self False data = Inr parsed \<and>
         (\<forall>k. k \<noteq> str ''hostname'' \<longrightarrow> m k = parsed k) \<and>
         (parsed (str ''hostname'') = None \<longrightarrow> m = parsed))) \<and>
   (get_status self True data = Inr st \<longrightarrow>
      (\<exists>br parsed.
         get_response_binary_reader self data = Inr br \<and>
         parsed = \<lparr>info = fst (parse_info self br),
                    players = parse_players self (snd (parse_info self br))\<rparr> \<and>
         get_status self False data = Inr parsed \<and>
         (\<forall>k. k \<noteq> str ''sv_hostname'' \<longrightarrow> info st k = info parsed k) \<and>
         (info parsed (str ''sv_hostname'') = None \<longrightarrow> info st = info parsed) \<and>
         length (players st) = length (players parsed) \<and>
         (\<forall>i<length (players parsed).
            (\<forall>k. k \<noteq> str ''name'' \<longrightarrow> (players st ! i) k = (players parsed ! i) k) \<and>
            ((players parsed ! i) (str ''name'') = None \<longrightarrow>
               players st ! i = players parsed ! i))))"
  using frame_info [of self data m] frame_status [of self data st] by (intro conjI impI)

lemma get_status_scenario_stripped:
  "get_status scenario_self True status_response =
     Inr \<lparr>info = [str ''sv_hostname'' \<mapsto> str ''^1Red^7Server'', str ''mapname'' \<mapsto> str ''q3dm17'']
                  (str ''sv_hostname'' \<mapsto> str ''RedServer''),
          players =
            [(map_of [(str ''score'', str ''5''), (str ''ping'', str ''40''),
                      (str ''name'', str ''anna'')])(str ''name'' \<mapsto> str ''anna''),
             (map_of [(str ''score'', str ''7''), (str ''ping'', str ''35''),
                      (str ''name'', str ''^2bo^b'')])(str ''name'' \<mapsto> str ''bo'')]\<rparr>"
proof -
  have "strip_colors (str ''anna'') = str ''anna''" "strip_colors (str ''^2bo^b'') = str ''bo''"
    by (simp_all add: strip_colors_eq_pass pass_eval)
  moreover have "str ''name'' \<noteq> str ''ping''" "str ''name'' \<noteq> str ''score''"
    "str ''sv_hostname'' \<noteq> str ''mapname''"
    by (simp_all add: str_def)
  ultimately show ?thesis
    unfolding get_status_accepted(2) [OF read_status_response]
    by (simp add: parse_status_info parse_status_players strip_hostname)
qed

theorem sanitization_frame_witness:
  "(\<exists>m parsed. get_info scenario_self True scenario_response = Inr m \<and>
      get_info scenario_self False scenario_response = Inr parsed \<and>
      m (str ''gametype'') = parsed (str ''gametype'')) \<and>
   (\<exists>st parsed. get_status scenario_self True status_response = Inr st \<and>
      get_status scenario_self False status_response = Inr parsed \<and>
      info st (str ''mapname'') = info parsed (str ''mapname'') \<and>
      length (players st) = length (players parsed))"
proof -
  define m where "m = [str ''hostname'' \<mapsto> str ''^1Red^7Server'', str ''gametype'' \<mapsto> str ''ffa'']
          (str ''hostname'' \<mapsto> str ''RedServer'')"
  define st where "st = \<lparr>info = [str ''sv_hostname'' \<mapsto> str ''^1Red^7Server'', str ''mapname'' \<mapsto> str ''q3dm17'']
                  (str ''sv_hostname'' \<mapsto> str ''RedServer''),
          players =
            [(map_of [(str ''score'', str ''5''), (str ''ping'', str ''40''),
                      (str ''name'', str ''anna'')])(str ''name'' \<mapsto> str ''anna''),
             (map_of [(str ''score'', str ''7''), (str ''ping'', str ''35''),
                      (str ''name'', str ''^2bo^b'')])(str ''name'' \<mapsto> str ''bo'')]\<rparr>"
  have m: "get_info scenario_self True scenario_response = Inr m"
    unfolding m_def by (rule get_info_scenario_stripped)
  have st: "get_status scenario_self True status_response = Inr st"
    unfolding st_def by (rule get_status_scenario_stripped)
  have g: "str ''gametype'' \<noteq> str ''hostname''" and mn: "str ''mapname'' \<noteq> str ''sv_hostname''"
    by (simp_all add: str_def)
  note frame = sanitization_frame [of scenario_self scenario_response m st]
  note frame_info = sanitization_frame [of scenario_self scenario_response m st, THEN conjunct1, THEN mp, OF m]
  note frame_status = sanitization_frame [of scenario_self status_response m st, THEN conjunct2, THEN mp, OF st]
  from frame_info obtain p1 where
    p1: "get_info scenario_self False scenario_response = Inr p1"
    and k1: "\<forall>k. k \<noteq> str ''hostname'' \<longrightarrow> m k = p1 k"
    by (elim exE conjE)
  from frame_status obtain p2 where
    p2: "get_status scenario_self False status_response = Inr p2"
    and k2: "\<forall>k. k \<noteq> str ''sv_hostname'' \<longrightarrow> info st k = info p2 k"
    and l2: "length (players st) = length (players p2)"
    by (elim exE conjE)
  from k1 g have e1: "m (str ''gametype'') = p1 (str ''gametype'')" by simp
  from k2 mn have e2: "info st (str ''mapname'') = info p2 (str ''mapname'')" by simp
  from m p1 e1 have c1: "\<exists>m parsed. get_info scenario_self True scenario_response = Inr m \<and>
      get_info scenario_self False scenario_response = Inr parsed \<and>
      m (str ''gametype'') = parsed (str ''gametype'')"
    by (intro exI conjI)
  from st p2 e2 l2 have c2: "\<exists>st parsed. get_status scenario_self True status_response = Inr st \<and>
      get_status scenario_self False status_response = Inr parsed \<and>
      info st (str ''mapname'') = info parsed (str ''mapname'') \<and>
      length (players st) = length (players parsed)"
    by (intro exI conjI)
  from c1 c2 show ?thesis by (rule conjI)
qed

lemma headers_differ: "info_response_header \<noteq> str ''statusResponse'' @ [NEWLINE]"
  by (simp add: info_response_header_def str_def)

lemma get_response_binary_reader_accepts:
  assumes "get_response_binary_reader self data = Inr br"
  shows "read_string (delimiter1 self) (BinaryReader_new data) = Inr (response_header self, br)"
proof (cases "read_string (delimiter1 self) (BinaryReader_new data)")
  case (Inl e)
  with assms show ?thesis by (simp add: get_response_binary_reader_def)
next
  case (Inr p)
  obtain header br' where p: "p = (header, br')" by (cases p)
  show ?thesis
  proof (cases "header = response_header self")
    case True
    with assms Inr p show ?thesis by (simp add: get_response_binary_reader_def)
  next
    case False
    with assms Inr p show ?thesis by (simp add: get_response_binary_reader_def)
  qed
qed

lemma get_response_binary_reader_rejects:
  assumes "read_string (delimiter1 self) (BinaryReader_new data) = Inr (header, br)"
    and "header \<noteq> response_header self"
  shows "get_status self strip_color data =
    Inl (InvalidPacketException (mismatch_message header (response_header self)))"
  using assms by (simp add: get_status_def get_response_binary_reader_def)

lemma get_info_rejects:
  assumes "read_string (delimiter1 self) (BinaryReader_new data) = Inr (header, br)"
    and "header \<noteq> info_response_header"
  shows "get_info self strip_color data =
    Inl (InvalidPacketException (mismatch_message header info_response_header))"
  using assms by (simp add: get_info_def)

lemma init_fields:
  "delimiter1 (Quake3_init base) = delimiter1 base"
  "response_header (Quake3_init base) = str ''statusResponse'' @ [NEWLINE]"
  "request_header (Quake3_init base) = ''getstatus''"
  by (simp_all add: Quake3_init_def)

text \<open>
  C8: \<^verbatim>\<open>get_info\<close> checks the header token against \<^verbatim>\<open>"infoResponse\n"\<close>,
  \<^verbatim>\<open>get_status\<close> against the response header that the constructor sets,
  \<^verbatim>\<open>"statusResponse\n"\<close>, and the two constants differ: a response that one of
  the two queries accepts is rejected by the other with the invalid-packet error.
\<close>

theorem info_header_distinct_from_status_header:
  "info_response_header = str ''infoResponse'' @ [NEWLINE] \<and>
   response_header (Quake3_init base) = str ''statusResponse'' @ [NEWLINE] \<and>
   info_response_header \<noteq> response_header (Quake3_init base) \<and>
   (get_info (Quake3_init base) strip_color data = Inr m \<longrightarrow>
      (\<exists>br. read_string (delimiter1 base) (BinaryReader_new data) =
              Inr (info_response_header, br)) \<and>
      (\<exists>msg. get_status (Quake3_init base) strip_color data =
              Inl (InvalidPacketException msg))) \<and>
   (get_status (Quake3_init base) strip_color data = Inr st \<longrightarrow>
      (\<exists>br. read_string (delimiter1 base) (BinaryReader_new data) =
              Inr (response_header (Quake3_init base), br)) \<and>
      (\<exists>msg. get_info (Quake3_init base) strip_color data =
              Inl (InvalidPacketException msg)))"
proof (intro conjI impI)
  show "info_response_header = str ''infoResponse'' @ [NEWLINE]"
    by (rule info_response_header_def)
  show "response_header (Quake3_init base) = str ''statusResponse'' @ [NEWLINE]"
    by (rule init_fields)
  show ne: "info_response_header \<noteq> response_header (Quake3_init base)"
    by (simp only: init_fields headers_differ not_False_eq_True)
  {
    assume "get_info (Quake3_init base) strip_color data = Inr m"
    from get_info_accepts [OF this] obtain br where
      br: "read_string (delimiter1 (Quake3_init base)) (BinaryReader_new data) =
             Inr (info_response_header, br)" ..
    then have "read_string (delimiter1 base) (BinaryReader_new data) =
              Inr (info_response_header, br)"
      by (simp only: init_fields)
    then show "\<exists>br. read_string (delimiter1 base) (BinaryReader_new data) =
              Inr (info_response_header, br)"
      by (rule exI)
    from get_response_binary_reader_rejects [OF br ne]
    show "\<exists>msg. get_status (Quake3_init base) strip_color data =
              Inl (InvalidPacketException msg)"
      by (rule exI)
  }
  {
    assume "get_status (Quake3_init base) strip_color data = Inr st"
    from get_status_accepts [OF this] obtain br where
      "get_response_binary_reader (Quake3_init base) data = Inr br" ..
    from get_response_binary_reader_accepts [OF this] have
      br: "read_string (delimiter1 (Quake3_init base)) (BinaryReader_new data) =
             Inr (response_header (Quake3_init base), br)" .
    then have "read_string (delimiter1 base) (BinaryReader_new data) =
              Inr (response_header (Quake3_init base), br)"
      by (simp only: init_fields(1))
    then show "\<exists>br. read_string (delimiter1 base) (BinaryReader_new data) =
              Inr (response_header (Quake3_init base), br)"
      by (rule exI)
    from get_info_rejects [OF br ne [symmetric]]
    show "\<exists>msg. get_info (Quake3_init base) strip_color data =
              Inl (InvalidPacketException msg)"
      by (rule exI)
  }
qed

theorem info_header_distinct_from_status_header_witness:
  "(\<exists>m. get_info scenario_self True scenario_response = Inr m) \<and>
   (\<exists>msg. get_status scenario_self True scenario_response = Inl (InvalidPacketException msg)) \<and>
   (\<exists>st. get_status scenario_self True status_response = Inr st) \<and>
   (\<exists>msg. get_info scenario_self True status_response = Inl (InvalidPacketException msg))"
proof -
  have s: "scenario_self = Quake3_init scenario_base" by (rule scenario_self_def)
  obtain m where m: "get_info (Quake3_init scenario_base) True scenario_response = Inr m"
    using get_info_scenario_stripped unfolding s ..
  obtain st where st: "get_status (Quake3_init scenario_base) True status_response = Inr st"
    using get_status_scenario_stripped unfolding s ..
  note a = info_header_distinct_from_status_header [of scenario_base True scenario_response m st,
      THEN conjunct2, THEN conjunct2, THEN conjunct2, THEN conjunct1, THEN mp, OF m,
      THEN conjunct2]
  note b = info_header_distinct_from_status_header [of scenario_base True status_response m st,
      THEN conjunct2, THEN conjunct2, THEN conjunct2, THEN conjunct2, THEN mp, OF st,
      THEN conjunct2]
  have 3: "\<exists>m. get_info (Quake3_init scenario_base) True scenario_response = Inr m"
    using m by (intro exI)
  have 4: "\<exists>st. get_status (Quake3_init scenario_base) True status_response = Inr st"
    using st by (intro exI)
  from 3 a 4 b show ?thesis unfolding s by (intro conjI)
qed

end
